theory Spec2Isabelle
  imports Complex_Main "HOL-Library.Word"
begin

section \<open>Strings, bytes and the platform's base64 primitives\<close>

text \<open>
  A JavaScript string is modelled as a \<^typ>\<open>string\<close>: a list of code units, each in the
  range 0..255 (the Latin-1 part of UTF-16, which holds every "binary string" that
  \<open>btoa\<close> accepts and \<open>atob\<close> returns, and all of ASCII). A \<open>Uint8Array\<close> or an
  \<open>ArrayBuffer\<close> is a list of 8-bit words.
\<close>

type_synonym byte = "8 word"

text \<open>\<open>String.fromCharCode(byte)\<close> and \<open>s.charCodeAt(i)\<close>.\<close>

definition fromCharCode :: "byte \<Rightarrow> char" where
  "fromCharCode b = char_of (unat b)"

definition charCode :: "char \<Rightarrow> nat" where
  "charCode c = of_char c"

text \<open>The base64 alphabet of RFC 4648, section 4: the character of each 6-bit value.\<close>

definition b64_alphabet :: string where
  "b64_alphabet = ''ABCDEFGHIJKLMNOPQRSTUVWXYZabcdefghijklmnopqrstuvwxyz0123456789+/''"

definition b64_char :: "nat \<Rightarrow> char" where
  "b64_char i = b64_alphabet ! i"

fun index_of :: "'a \<Rightarrow> 'a list \<Rightarrow> nat option" where
  "index_of c [] = None"
| "index_of c (x # xs) =
     (if c = x then Some 0 else map_option Suc (index_of c xs))"

definition b64_value :: "char \<Rightarrow> nat option" where
  "b64_value c = index_of c b64_alphabet"

text \<open>
  Three octets become four 6-bit values; one or two remaining octets become two or
  three of them, the unused low bits zero.
\<close>

fun sextets :: "nat list \<Rightarrow> nat list" where
  "sextets (a # b # c # r) =
     [a div 4, (a mod 4) * 16 + b div 16, (b mod 16) * 4 + c div 64, c mod 64] @ sextets r"
| "sextets [a, b] = [a div 4, (a mod 4) * 16 + b div 16, (b mod 16) * 4]"
| "sextets [a] = [a div 4, (a mod 4) * 16]"
| "sextets [] = []"

text \<open>
  \<open>btoa(binary)\<close>: base64 with the \<open>=\<close> padding. (It throws on a code unit above
  255, which a \<^typ>\<open>char\<close> cannot hold, as the bytes of a \<open>Uint8Array\<close> cannot.)
\<close>

definition btoa :: "string \<Rightarrow> string" where
  "btoa s =
     map b64_char (sextets (map charCode s))
       @ replicate ((3 - length s mod 3) mod 3) (CHR ''='')"

text \<open>
  Four 6-bit values become three octets; a final group of two or three values becomes
  one or two octets, its unused low bits dropped.
\<close>

fun octets :: "nat list \<Rightarrow> nat list" where
  "octets (p # q # r # s # rest) =
     [p * 4 + q div 16, (q mod 16) * 16 + r div 4, (r mod 4) * 64 + s] @ octets rest"
| "octets [p, q, r] = [p * 4 + q div 16, (q mod 16) * 16 + r div 4]"
| "octets [p, q] = [p * 4 + q div 16]"
| "octets [p] = []"
| "octets [] = []"

text \<open>
  Thrown values. \<open>InvalidCharacterError\<close> is the \<open>DOMException\<close> of \<open>atob\<close>; the
  other three are \<open>Error\<close> objects with their \<open>message\<close>.
\<close>

datatype js_error =
    InvalidCharacterError
  | SyntaxError string
  | TypeError string
  | Error string

definition ascii_whitespace :: "char \<Rightarrow> bool" where
  "ascii_whitespace c \<longleftrightarrow> charCode c \<in> {9, 10, 12, 13, 32}"

definition strip_padding :: "string \<Rightarrow> string" where
  "strip_padding d =
     (if length d mod 4 = 0 then
        (case rev d of
           x # y # r \<Rightarrow>
             if x = CHR ''='' \<and> y = CHR ''='' then rev r
             else if x = CHR ''='' then rev (y # r)
             else d
         | [x] \<Rightarrow> d
         | [] \<Rightarrow> d)
      else d)"

text \<open>
  \<open>atob(data)\<close>, the forgiving base64 decoding of the WHATWG Infra standard: ASCII
  whitespace is removed; if the length is then a multiple of 4, one or two trailing
  \<open>=\<close> are removed; a length of 1 modulo 4 or a character outside the alphabet
  throws \<open>InvalidCharacterError\<close>.
\<close>

definition atob :: "string \<Rightarrow> js_error + string" where
  "atob s =
     (let d = strip_padding (filter (\<lambda>c. \<not> ascii_whitespace c) s) in
      if length d mod 4 = 1 then Inl InvalidCharacterError
      else if \<exists>c \<in> set d. b64_value c = None then Inl InvalidCharacterError
      else Inr (map char_of (octets (map (\<lambda>c. case b64_value c of Some v \<Rightarrow> v | None \<Rightarrow> 0) d))))"

section \<open>base64url helpers of the application\<close>

text \<open>\<open>s.replace(/c/g, d)\<close> for a single character \<open>c\<close>.\<close>

definition replace_all :: "char \<Rightarrow> char \<Rightarrow> string \<Rightarrow> string" where
  "replace_all c d s = map (\<lambda>x. if x = c then d else x) s"

text \<open>\<open>s.replace(/=+$/, '')\<close>: the trailing run of \<open>=\<close> is removed.\<close>

definition strip_trailing_eq :: "string \<Rightarrow> string" where
  "strip_trailing_eq s = rev (dropWhile (\<lambda>c. c = CHR ''='') (rev s))"

definition base64UrlEncode :: "byte list \<Rightarrow> string" where
  "base64UrlEncode buffer =
     (let binary = map fromCharCode buffer in
      strip_trailing_eq (replace_all (CHR ''/'') (CHR ''_'')
        (replace_all (CHR ''+'') (CHR ''-'') (btoa binary))))"

text \<open>\<open>value.padEnd(n, '=')\<close>.\<close>

definition padEnd :: "string \<Rightarrow> nat \<Rightarrow> char \<Rightarrow> string" where
  "padEnd s n c = s @ replicate (n - length s) c"

definition base64UrlDecode :: "string \<Rightarrow> js_error + string" where
  "base64UrlDecode v =
     (let padded = padEnd v (length v + ((4 - (length v mod 4)) mod 4)) (CHR ''='');
          normalized = replace_all (CHR ''_'') (CHR ''/'') (replace_all (CHR ''-'') (CHR ''+'') padded)
      in atob normalized)"

section \<open>JavaScript values\<close>

text \<open>
  What \<open>JSON.parse\<close> and \<open>response.json()\<close> return. An object is the list of its
  properties, each name once. A number is the real number it stands for (a double is
  one; \<open>-0\<close> is \<open>0\<close>). \<open>undefined\<close> is \<open>None\<close> of a \<^typ>\<open>'a option\<close>, as is
  the \<open>null\<close> of \<open>getItem\<close>.
\<close>

datatype json =
    JNull
  | JBool bool
  | JNum real
  | JStr string
  | JArr "json list"
  | JObj "(string \<times> json) list"

text \<open>\<open>Boolean(v)\<close>, the test of \<open>if (v)\<close>, \<open>!v\<close> and \<open>v || w\<close>.\<close>

fun truthy :: "json \<Rightarrow> bool" where
  "truthy JNull = False"
| "truthy (JBool b) = b"
| "truthy (JNum n) = (n \<noteq> 0)"
| "truthy (JStr s) = (s \<noteq> [])"
| "truthy (JArr xs) = True"
| "truthy (JObj kvs) = True"

definition js_truthy :: "json option \<Rightarrow> bool" where
  "js_truthy v = (case v of None \<Rightarrow> False | Some x \<Rightarrow> truthy x)"

definition str_truthy :: "string option \<Rightarrow> bool" where
  "str_truthy v = (case v of None \<Rightarrow> False | Some s \<Rightarrow> s \<noteq> [])"

text \<open>
  \<open>v.name\<close> for the property names this program reads (\<open>id_token\<close>, \<open>access_token\<close>,
  \<open>detail\<close>, \<open>name\<close>, \<open>email\<close>, ...), none of which a prototype defines: the own property
  of an object, \<open>undefined\<close> on a string, number, boolean or array, a \<open>TypeError\<close> on
  \<open>null\<close>.
\<close>

fun get_prop :: "json \<Rightarrow> string \<Rightarrow> js_error + json option" where
  "get_prop JNull k = Inl (TypeError ''Cannot read properties of null'')"
| "get_prop (JObj kvs) k = Inr (map_of kvs k)"
| "get_prop (JBool b) k = Inr None"
| "get_prop (JNum n) k = Inr None"
| "get_prop (JStr s) k = Inr None"
| "get_prop (JArr xs) k = Inr None"

fun join :: "string \<Rightarrow> string list \<Rightarrow> string" where
  "join sep [] = []"
| "join sep [x] = x"
| "join sep (x # y # r) = x @ sep @ join sep (y # r)"

text \<open>\<open>err.message\<close>.\<close>

fun message :: "js_error \<Rightarrow> string" where
  "message InvalidCharacterError = ''The string to be decoded is not correctly encoded.''"
| "message (SyntaxError m) = m"
| "message (TypeError m) = m"
| "message (Error m) = m"

section \<open>Browser state and platform\<close>

type_synonym storage = "string \<rightharpoonup> string"

definition getItem :: "storage \<Rightarrow> string \<Rightarrow> string option" where
  "getItem s k = s k"

definition setItem :: "storage \<Rightarrow> string \<Rightarrow> string \<Rightarrow> storage" where
  "setItem s k v = s(k \<mapsto> v)"

definition removeItem :: "storage \<Rightarrow> string \<Rightarrow> storage" where
  "removeItem s k = s(k := None)"

record File =
  file_name :: string
  file_size :: nat

datatype body = TextBody string | FormData "(string \<times> File) list"

record request =
  req_url :: string
  req_method :: string
  req_headers :: "(string \<times> string) list"
  req_body :: body

text \<open>
  The outcome of \<open>await fetch(...)\<close>: the promise rejects, or a response arrives with
  its \<open>ok\<close> flag (status 200 to 299) and what \<open>response.json()\<close> gives, a rejection
  when the body is not JSON.
\<close>

datatype fetch_result =
    Rejected js_error
  | Response bool "js_error + json"

text \<open>
  The browser state the program reads and writes: \<open>localStorage\<close> (durable),
  \<open>sessionStorage\<close>, the requests issued through \<open>fetch\<close> (oldest first), the
  parameters of \<open>window.location.search\<close> as \<open>URLSearchParams\<close> parses them, and the
  URL given to \<open>window.location.assign\<close>.
\<close>

record world =
  localStorage :: storage
  sessionStorage :: storage
  fetched :: "request list"
  search :: "(string \<times> string) list"
  assigned :: "string option"

text \<open>
  The built-ins the program calls and does not implement: the bytes
  \<open>crypto.getRandomValues\<close> draws (by index), \<open>crypto.subtle.digest('SHA-256', _)\<close>,
  \<open>JSON.parse\<close> (\<open>None\<close> for its \<open>SyntaxError\<close>), the rendering of a number by
  \<open>String(n)\<close>, and the network behind \<open>fetch\<close>.
\<close>

record platform =
  getRandomValues :: "nat \<Rightarrow> byte"
  digest_sha256 :: "byte list \<Rightarrow> byte list"
  json_parse :: "string \<Rightarrow> json option"
  number_toString :: "real \<Rightarrow> string"
  fetch :: "request \<Rightarrow> fetch_result"

text \<open>
  \<open>String(v)\<close>, the conversion \<open>setItem\<close> applies to the value it stores. A number is
  rendered by the platform. An array joins the conversions of its elements with commas,
  \<open>null\<close> giving the empty string, left to right. A plain object gives
  \<open>[object Object]\<close> through \<open>Object.prototype.toString\<close>, unless it has an own
  property \<open>toString\<close>: a parsed value is never callable, \<open>valueOf\<close> gives back the
  object, and the conversion throws a \<open>TypeError\<close>.
\<close>

fun to_string :: "(real \<Rightarrow> string) \<Rightarrow> json \<Rightarrow> js_error + string"
  and to_strings :: "(real \<Rightarrow> string) \<Rightarrow> json list \<Rightarrow> js_error + string list" where
  "to_string f JNull = Inr ''null''"
| "to_string f (JBool b) = Inr (if b then ''true'' else ''false'')"
| "to_string f (JNum n) = Inr (f n)"
| "to_string f (JStr s) = Inr s"
| "to_string f (JArr xs) =
     (case to_strings f xs of Inl e \<Rightarrow> Inl e | Inr ss \<Rightarrow> Inr (join '','' ss))"
| "to_string f (JObj kvs) =
     (case map_of kvs ''toString'' of
        None \<Rightarrow> Inr ''[object Object]''
      | Some m \<Rightarrow> Inl (TypeError ''Cannot convert object to primitive value''))"
| "to_strings f [] = Inr []"
| "to_strings f (x # xs) =
     (case (case x of JNull \<Rightarrow> Inr [] | _ \<Rightarrow> to_string f x) of
        Inl e \<Rightarrow> Inl e
      | Inr s \<Rightarrow> (case to_strings f xs of Inl e \<Rightarrow> Inl e | Inr ss \<Rightarrow> Inr (s # ss)))"

section \<open>URL encoding\<close>

text \<open>The UTF-8 bytes of a code unit below 256, as \<open>TextEncoder\<close> and the URL serialiser produce them.\<close>

definition utf8 :: "char \<Rightarrow> nat list" where
  "utf8 c = (let n = charCode c in if n < 128 then [n] else [192 + n div 64, 128 + n mod 64])"

definition TextEncoder_encode :: "string \<Rightarrow> byte list" where
  "TextEncoder_encode s = map of_nat (concat (map utf8 s))"

definition hex_digit :: "nat \<Rightarrow> char" where
  "hex_digit n = ''0123456789ABCDEF'' ! n"

text \<open>
  The \<open>application/x-www-form-urlencoded\<close> byte serialiser of the URL standard, which
  \<open>URLSearchParams.toString()\<close> applies to each name and value: letters, digits and
  \<open>* - . _\<close> stay, a space becomes \<open>+\<close>, any other byte is percent-encoded.
\<close>

definition form_unreserved :: "nat \<Rightarrow> bool" where
  "form_unreserved n \<longleftrightarrow>
     n \<in> {42, 45, 46, 95} \<or> (48 \<le> n \<and> n \<le> 57) \<or> (65 \<le> n \<and> n \<le> 90)
       \<or> (97 \<le> n \<and> n \<le> 122)"

definition form_byte :: "nat \<Rightarrow> string" where
  "form_byte n =
     (if n = 32 then ''+''
      else if form_unreserved n then [char_of n]
      else [CHR ''%'', hex_digit (n div 16), hex_digit (n mod 16)])"

definition form_encode :: "string \<Rightarrow> string" where
  "form_encode s = concat (map form_byte (concat (map utf8 s)))"

definition params_toString :: "(string \<times> string) list \<Rightarrow> string" where
  "params_toString ps = join ''&'' (map (\<lambda>(k, v). form_encode k @ ''='' @ form_encode v) ps)"

text \<open>\<open>params.get(name)\<close>: the value of the first parameter of that name, or \<open>null\<close>.\<close>

definition params_get :: "(string \<times> string) list \<Rightarrow> string \<Rightarrow> string option" where
  "params_get ps k = map_of ps k"

definition startsWith :: "string \<Rightarrow> string \<Rightarrow> bool" where
  "startsWith s p \<longleftrightarrow> take (length p) s = p"

section \<open>The auth gate\<close>

definition CODE_VERIFIER_KEY :: string where
  "CODE_VERIFIER_KEY = ''cognito_pkce_verifier''"

record AuthConfig =
  domain :: string
  clientId :: string
  redirectUri :: string
  logoutUri :: string
  scope :: string
  authority :: "string option"

text \<open>The \<open>import.meta.env\<close> variables, each set or not.\<close>

record env_vars =
  VITE_COGNITO_DOMAIN :: "string option"
  VITE_COGNITO_CLIENT_ID :: "string option"
  VITE_COGNITO_REDIRECT_URI :: "string option"
  VITE_COGNITO_LOGOUT_URI :: "string option"
  VITE_COGNITO_SCOPE :: "string option"
  VITE_COGNITO_AUTHORITY :: "string option"

text \<open>\<open>a ?? b\<close>.\<close>

definition nullish :: "'a option \<Rightarrow> 'a \<Rightarrow> 'a" where
  "nullish a b = (case a of None \<Rightarrow> b | Some x \<Rightarrow> x)"

definition getAuthConfig :: "env_vars \<Rightarrow> string \<Rightarrow> AuthConfig" where
  "getAuthConfig env origin =
     \<lparr> domain = nullish (VITE_COGNITO_DOMAIN env) [],
       clientId = nullish (VITE_COGNITO_CLIENT_ID env) [],
       redirectUri = nullish (VITE_COGNITO_REDIRECT_URI env) origin,
       logoutUri = nullish (VITE_COGNITO_LOGOUT_URI env) origin,
       scope = nullish (VITE_COGNITO_SCOPE env) ''openid email profile'',
       authority = VITE_COGNITO_AUTHORITY env \<rparr>"

definition isAuthenticated :: "world \<Rightarrow> bool" where
  "isAuthenticated w \<longleftrightarrow>
     str_truthy (getItem (localStorage w) ''cognito_id_token'')
     \<or> str_truthy (getItem (localStorage w) ''cognito_access_token'')"

definition buildHostedUrl :: "AuthConfig \<Rightarrow> string \<Rightarrow> string" where
  "buildHostedUrl config path =
     (let base = (if startsWith (domain config) ''http'' then domain config
                  else ''https://'' @ domain config)
      in base @ path)"

definition buildLogoutUrl :: "AuthConfig \<Rightarrow> string" where
  "buildLogoutUrl config =
     (let base = buildHostedUrl config ''/logout'';
          params = [(''client_id'', clientId config), (''logout_uri'', logoutUri config)]
      in base @ ''?'' @ params_toString params)"

text \<open>\<open>s.split(c)\<close> for a single character: never empty, the empty string gives one empty piece.\<close>

fun split :: "char \<Rightarrow> string \<Rightarrow> string list" where
  "split c [] = [[]]"
| "split c (x # xs) =
     (if x = c then [] # split c xs
      else (case split c xs of y # ys \<Rightarrow> (x # y) # ys | [] \<Rightarrow> [[x]]))"

text \<open>
  \<open>d.k1 || d.k2 || ... || ''\<close>: the first truthy property in the order written, the
  empty string when none is; the first property access throws on \<open>null\<close>.
\<close>

fun or_chain :: "json \<Rightarrow> string list \<Rightarrow> js_error + json" where
  "or_chain d [] = Inr (JStr [])"
| "or_chain d (k # ks) =
     (case get_prop d k of
        Inl e \<Rightarrow> Inl e
      | Inr None \<Rightarrow> or_chain d ks
      | Inr (Some v) \<Rightarrow> if truthy v then Inr v else or_chain d ks)"

definition label_claims :: "string list" where
  "label_claims =
     [''name'', ''given_name'', ''email'', ''cognito:username'', ''preferred_username'', ''username'']"

text \<open>
  The label is typed \<open>string\<close> in the source, but is whatever truthy value the claim
  holds; every \<open>return ''\<close> and the \<open>catch\<close> give the empty string.
\<close>

definition getUserLabel :: "platform \<Rightarrow> world \<Rightarrow> json" where
  "getUserLabel p w =
     (case getItem (localStorage w) ''cognito_id_token'' of
        None \<Rightarrow> JStr []
      | Some idToken \<Rightarrow>
          if idToken = [] then JStr []
          else
            (case split (CHR ''.'') idToken of
               h # payload # rest \<Rightarrow>
                 if payload = [] then JStr []
                 else
                   (case base64UrlDecode payload of
                      Inl e \<Rightarrow> JStr []
                    | Inr text \<Rightarrow>
                        (case json_parse p text of
                           None \<Rightarrow> JStr []
                         | Some decoded \<Rightarrow>
                             (case or_chain decoded label_claims of
                                Inl e \<Rightarrow> JStr []
                              | Inr v \<Rightarrow> v)))
             | [h] \<Rightarrow> JStr []
             | [] \<Rightarrow> JStr []))"

definition randomVerifier :: "platform \<Rightarrow> nat \<Rightarrow> string" where
  "randomVerifier p len =
     (let bytes = map (getRandomValues p) [0..<len] in base64UrlEncode bytes)"

definition createCodeChallenge :: "platform \<Rightarrow> string \<Rightarrow> string" where
  "createCodeChallenge p verifier =
     (let data = TextEncoder_encode verifier;
          digest = digest_sha256 p data
      in base64UrlEncode digest)"

definition buildLoginUrl :: "platform \<Rightarrow> AuthConfig \<Rightarrow> world \<Rightarrow> string \<times> world" where
  "buildLoginUrl p config w =
     (let codeVerifier = randomVerifier p 64;
          codeChallenge = createCodeChallenge p codeVerifier;
          w' = w\<lparr>sessionStorage := setItem (sessionStorage w) CODE_VERIFIER_KEY codeVerifier\<rparr>;
          base = buildHostedUrl config ''/oauth2/authorize'';
          params =
            [(''client_id'', clientId config),
             (''response_type'', ''code''),
             (''scope'', scope config),
             (''redirect_uri'', redirectUri config),
             (''code_challenge'', codeChallenge),
             (''code_challenge_method'', ''S256'')]
      in (base @ ''?'' @ params_toString params, w'))"

text \<open>The request \<open>exchangeCodeForTokens\<close> hands to \<open>fetch\<close>.\<close>

definition token_request :: "AuthConfig \<Rightarrow> string \<Rightarrow> string \<Rightarrow> request" where
  "token_request config code verifier =
     (let params =
            [(''grant_type'', ''authorization_code''),
             (''client_id'', clientId config),
             (''code'', code),
             (''redirect_uri'', redirectUri config),
             (''code_verifier'', verifier)]
      in \<lparr> req_url = buildHostedUrl config ''/oauth2/token'',
           req_method = ''POST'',
           req_headers = [(''Content-Type'', ''application/x-www-form-urlencoded'')],
           req_body = TextBody (params_toString params) \<rparr>)"

text \<open>
  \<open>if (v) { localStorage.setItem(key, v) }\<close>: \<open>setItem\<close> converts the value to a
  string first, and throws what the conversion throws, before anything is written.
\<close>

definition store_if_truthy ::
  "platform \<Rightarrow> string \<Rightarrow> json option \<Rightarrow> world \<Rightarrow> js_error + world" where
  "store_if_truthy p key v w =
     (case v of
        None \<Rightarrow> Inr w
      | Some x \<Rightarrow>
          if truthy x then
            (case to_string (number_toString p) x of
               Inl e \<Rightarrow> Inl e
             | Inr s \<Rightarrow> Inr (w\<lparr>localStorage := setItem (localStorage w) key s\<rparr>))
          else Inr w)"

text \<open>
  The promise of the \<open>async\<close> function: \<open>Inl\<close> when it rejects (a \<open>throw\<close>, a rejected
  \<open>fetch\<close> or \<open>response.json()\<close>, a \<open>TypeError\<close> of a property access or of
  \<open>setItem\<close>), \<open>Inr\<close> its value; with the browser state it leaves.
\<close>

definition exchangeCodeForTokens ::
  "platform \<Rightarrow> AuthConfig \<Rightarrow> string \<Rightarrow> world \<Rightarrow> (js_error + bool) \<times> world" where
  "exchangeCodeForTokens p config code w =
     (case getItem (sessionStorage w) CODE_VERIFIER_KEY of
        None \<Rightarrow> (Inl (Error ''Missing PKCE code verifier''), w)
      | Some verifier \<Rightarrow>
          if verifier = [] then (Inl (Error ''Missing PKCE code verifier''), w)
          else
            (let req = token_request config code verifier;
                 w1 = w\<lparr>fetched := fetched w @ [req]\<rparr>
             in case fetch p req of
                  Rejected e \<Rightarrow> (Inl e, w1)
                | Response ok body \<Rightarrow>
                    if \<not> ok then (Inl (Error ''Token exchange failed''), w1)
                    else
                      (case body of
                         Inl e \<Rightarrow> (Inl e, w1)
                       | Inr payload \<Rightarrow>
                           (case get_prop payload ''id_token'' of
                              Inl e \<Rightarrow> (Inl e, w1)
                            | Inr id_token \<Rightarrow>
                                (case store_if_truthy p ''cognito_id_token'' id_token w1 of
                                   Inl e \<Rightarrow> (Inl e, w1)
                                 | Inr w2 \<Rightarrow>
                                     (case get_prop payload ''access_token'' of
                                        Inl e \<Rightarrow> (Inl e, w2)
                                      | Inr access_token \<Rightarrow>
                                          (case store_if_truthy p ''cognito_access_token''
                                                  access_token w2 of
                                             Inl e \<Rightarrow> (Inl e, w2)
                                           | Inr w3 \<Rightarrow>
                                               (let w4 = w3\<lparr>sessionStorage :=
                                                       removeItem (sessionStorage w3) CODE_VERIFIER_KEY\<rparr>
                                                in (Inr (js_truthy id_token \<or> js_truthy access_token),
                                                    w4)))))))))"

section \<open>The App component\<close>

record app_state =
  authed :: bool
  authError :: string
  userLabel :: json

definition hasConfig :: "AuthConfig \<Rightarrow> bool" where
  "hasConfig config \<longleftrightarrow> domain config \<noteq> [] \<and> clientId config \<noteq> []"

text \<open>The effect on \<open>[authed]\<close>, run after the first render and after each change of \<open>authed\<close>.\<close>

definition label_effect :: "platform \<Rightarrow> world \<Rightarrow> app_state \<Rightarrow> app_state" where
  "label_effect p w st =
     (if authed st then st\<lparr>userLabel := getUserLabel p w\<rparr>
      else st\<lparr>userLabel := JStr []\<rparr>)"

text \<open>\<open>window.history.replaceState(null, '', window.location.pathname)\<close>: the query is dropped.\<close>

definition replaceState :: "world \<Rightarrow> world" where
  "replaceState w = w\<lparr>search := []\<rparr>"

text \<open>
  The call \<open>exchangeCodeForTokens(config, code)\<close> of the effect with its \<open>then\<close>,
  \<open>catch\<close> and \<open>finally\<close> handlers, taken up to the settling of the promise.
\<close>

definition exchange_and_settle ::
  "platform \<Rightarrow> AuthConfig \<Rightarrow> string \<Rightarrow> app_state \<Rightarrow> world \<Rightarrow> app_state \<times> world" where
  "exchange_and_settle p config code st w =
     (case exchangeCodeForTokens p config code w of
        (Inr didStore, w') \<Rightarrow>
          ((if didStore then
              label_effect p w'
                (st\<lparr>authed := True, authError := [], userLabel := getUserLabel p w'\<rparr>)
            else st),
           replaceState w')
      | (Inl err, w') \<Rightarrow>
          (st\<lparr>authError := ''Token exchange failed''\<rparr>, replaceState w'))"

text \<open>The effect on \<open>[]\<close>, run once after the first render.\<close>

definition code_effect ::
  "platform \<Rightarrow> AuthConfig \<Rightarrow> app_state \<Rightarrow> world \<Rightarrow> app_state \<times> world" where
  "code_effect p config st w =
     (let code = params_get (search w) ''code'';
          error = params_get (search w) ''error''
      in if str_truthy error then (st\<lparr>authError := nullish error []\<rparr>, w)
         else if \<not> str_truthy code then (st, w)
         else exchange_and_settle p config (nullish code []) st w)"

text \<open>A page load: the initial \<open>useState\<close> values, then both effects.\<close>

definition App_mount :: "platform \<Rightarrow> AuthConfig \<Rightarrow> world \<Rightarrow> app_state \<times> world" where
  "App_mount p config w =
     (let st0 = \<lparr> authed = isAuthenticated w, authError = [], userLabel = getUserLabel p w \<rparr>;
          st1 = label_effect p w st0
      in code_effect p config st1 w)"

text \<open>The \<open>onClick\<close> of "Log out", rendered when \<open>authed\<close>.\<close>

definition logout_click ::
  "platform \<Rightarrow> AuthConfig \<Rightarrow> app_state \<Rightarrow> world \<Rightarrow> app_state \<times> world" where
  "logout_click p config st w =
     (let w1 = w\<lparr>localStorage := removeItem (localStorage w) ''cognito_id_token''\<rparr>;
          w2 = w1\<lparr>localStorage := removeItem (localStorage w1) ''cognito_access_token''\<rparr>;
          st1 = st\<lparr>authed := False, userLabel := JStr []\<rparr>;
          w3 = (if hasConfig config then w2\<lparr>assigned := Some (buildLogoutUrl config)\<rparr> else w2)
      in (label_effect p w3 st1, w3))"

text \<open>
  The \<open>onClick\<close> of "Log in with Cognito", rendered when not \<open>authed\<close>. (Its \<open>catch\<close>
  runs only when the random or digest built-in is missing, which the platform record
  does not model.)
\<close>

definition login_click ::
  "platform \<Rightarrow> AuthConfig \<Rightarrow> app_state \<Rightarrow> world \<Rightarrow> app_state \<times> world" where
  "login_click p config st w =
     (if \<not> hasConfig config then (st, w)
      else (case buildLoginUrl p config w of
              (url, w') \<Rightarrow> (st, w'\<lparr>assigned := Some url\<rparr>)))"

text \<open>
  The states of the component with the browser state beside them: a page load from any
  browser state, then clicks on the button that is rendered. The platform may answer
  differently at each step; \<open>P\<close> says which platforms are considered.
\<close>

inductive reachable :: "(platform \<Rightarrow> bool) \<Rightarrow> AuthConfig \<Rightarrow> app_state \<times> world \<Rightarrow> bool"
  for P :: "platform \<Rightarrow> bool" and config :: AuthConfig where
  mount: "P p \<Longrightarrow> reachable P config (App_mount p config w)"
| logout: "reachable P config (st, w) \<Longrightarrow> P p \<Longrightarrow> authed st \<Longrightarrow>
     reachable P config (logout_click p config st w)"
| login: "reachable P config (st, w) \<Longrightarrow> P p \<Longrightarrow> \<not> authed st \<Longrightarrow>
     reachable P config (login_click p config st w)"

section \<open>The upload form\<close>

record form_state =
  selectedFile :: "File option"
  language :: string
  isSubmitting :: bool
  error :: json
  result :: json

text \<open>\<open>s.trim()\<close> on code units below 256: tab, LF, VT, FF, CR, space and no-break space.\<close>

definition js_whitespace :: "char \<Rightarrow> bool" where
  "js_whitespace c \<longleftrightarrow> charCode c \<in> {9, 10, 11, 12, 13, 32, 160}"

definition trim :: "string \<Rightarrow> string" where
  "trim s = rev (dropWhile js_whitespace (rev (dropWhile js_whitespace s)))"

text \<open>The request \<open>handleSubmit\<close> hands to \<open>fetch\<close>.\<close>

definition transcribe_request :: "string \<Rightarrow> File \<Rightarrow> request" where
  "transcribe_request lang f =
     (let formData = [(''file'', f)];
          params = (if trim lang \<noteq> [] then [(''language'', trim lang)] else []);
          query = params_toString params;
          url = (if query \<noteq> [] then ''/api/transcribe/segment?'' @ query
                 else ''/api/transcribe/segment'')
      in \<lparr> req_url = url, req_method = ''POST'', req_headers = [], req_body = FormData formData \<rparr>)"

text \<open>
  \<open>handleSubmit\<close>, taken up to the settling of its request. The field
  \<open>selectedFile\<close> is the state \<open>file\<close> of the source; \<open>result\<close> holds \<open>JNull\<close> for
  the \<open>null\<close> of the source, also when the answer's body is \<open>null\<close>. The first statement,
  \<open>event.preventDefault()\<close>, acts on the event only: it touches neither the form
  state nor the browser state.
\<close>

definition handleSubmit :: "platform \<Rightarrow> form_state \<Rightarrow> world \<Rightarrow> form_state \<times> world" where
  "handleSubmit p st w =
     (case selectedFile st of
        None \<Rightarrow> (st, w)
      | Some f \<Rightarrow>
          if isSubmitting st then (st, w)
          else
            (let st1 = st\<lparr>isSubmitting := True, error := JStr [], result := JNull\<rparr>;
                 req = transcribe_request (language st) f;
                 w1 = w\<lparr>fetched := fetched w @ [req]\<rparr>;
                 st2 =
                   (case fetch p req of
                      Rejected err \<Rightarrow> st1\<lparr>error := JStr (message err)\<rparr>
                    | Response ok body \<Rightarrow>
                        if \<not> ok then
                          (let fallback = JStr ''Transcription failed'';
                               shown =
                                 (case body of
                                    Inl e \<Rightarrow> fallback
                                  | Inr payload \<Rightarrow>
                                      (case get_prop payload ''detail'' of
                                         Inl e \<Rightarrow> fallback
                                       | Inr None \<Rightarrow> fallback
                                       | Inr (Some detail) \<Rightarrow>
                                           if truthy detail then detail else fallback))
                           in st1\<lparr>error := shown\<rparr>)
                        else
                          (case body of
                             Inl err \<Rightarrow> st1\<lparr>error := JStr (message err)\<rparr>
                           | Inr payload \<Rightarrow> st1\<lparr>result := payload\<rparr>))
             in (st2\<lparr>isSubmitting := False\<rparr>, w1)))"

text \<open>
  Token endpoints every answer of which can be stored: an \<open>id_token\<close> or
  \<open>access_token\<close> that is present (truthy) converts to a string, and not to the empty
  one. Every non-empty string token is such; section 6 of the specification expects
  JSON \<open>{id_token?, access_token?}\<close>.
\<close>

definition storable_tokens :: "platform \<Rightarrow> bool" where
  "storable_tokens p \<longleftrightarrow>
     (\<forall>req ok payload k v.
        fetch p req = Response ok (Inr payload)
        \<and> (k = ''id_token'' \<or> k = ''access_token'')
        \<and> get_prop payload k = Inr (Some v) \<and> truthy v
        \<longrightarrow> (\<exists>s. to_string (number_toString p) v = Inr s \<and> s \<noteq> []))"

section \<open>Concrete inputs\<close>

definition example_config :: AuthConfig where
  "example_config =
     \<lparr> domain = ''auth.example.com'', clientId = ''client1'',
       redirectUri = ''https://app.example.com'', logoutUri = ''https://app.example.com'',
       scope = ''openid email profile'', authority = None \<rparr>"

text \<open>A page reached through the provider's redirect with \<open>?code=abc\<close>, nothing stored.\<close>

definition example_world :: world where
  "example_world =
     \<lparr> localStorage = Map.empty, sessionStorage = Map.empty, fetched = [],
       search = [(''code'', ''abc'')], assigned = None \<rparr>"

text \<open>The same page with a verifier pending.\<close>

definition pending_world :: world where
  "pending_world = example_world\<lparr>sessionStorage := [CODE_VERIFIER_KEY \<mapsto> ''v3r1f13r'']\<rparr>"

text \<open>A page reached with \<open>?error=access_denied\<close> while an ID token is stored.\<close>

definition returning_world :: world where
  "returning_world =
     \<lparr> localStorage = [''cognito_id_token'' \<mapsto> ''a.b.c''], sessionStorage = Map.empty,
       fetched = [], search = [(''error'', ''access_denied'')], assigned = None \<rparr>"

text \<open>A page reached with \<open>?error=&code=abc\<close> while a verifier is pending.\<close>

definition empty_error_world :: world where
  "empty_error_world =
     \<lparr> localStorage = Map.empty, sessionStorage = [CODE_VERIFIER_KEY \<mapsto> ''v3r1f13r''],
       fetched = [], search = [(''error'', []), (''code'', ''abc'')], assigned = None \<rparr>"

text \<open>
  Stored ID tokens: one whose middle segment is the base64url of
  \<open>{"email":"x@y.com"}\<close>, one whose middle segment is not base64url.
\<close>

definition labelled_world :: world where
  "labelled_world =
     example_world\<lparr>localStorage := [''cognito_id_token'' \<mapsto> ''hdr.eyJlbWFpbCI6InhAeS5jb20ifQ.sig'']\<rparr>"

definition garbled_world :: world where
  "garbled_world = example_world\<lparr>localStorage := [''cognito_id_token'' \<mapsto> ''hdr.!!!.sig'']\<rparr>"

text \<open>
  A platform whose token endpoint answers \<open>{"id_token": "a.b.c"}\<close>. Its random bytes
  are 0, 1, 2, ...; its digest is a stand-in of the length of SHA-256 (the first 32 bytes
  of the zero-padded message); its \<open>JSON.parse\<close> knows one text; no number occurs,
  and every number is rendered \<open>0\<close>.
\<close>

definition token_platform :: platform where
  "token_platform =
     \<lparr> getRandomValues = (\<lambda>i. of_nat i),
       digest_sha256 = (\<lambda>m. take 32 (m @ replicate 32 0)),
       json_parse = (\<lambda>s. if s = ''{\"email\":\"x@y.com\"}''
                          then Some (JObj [(''email'', JStr ''x@y.com'')]) else None),
       number_toString = (\<lambda>n. ''0''),
       fetch = (\<lambda>r. Response True (Inr (JObj [(''id_token'', JStr ''a.b.c'')]))) \<rparr>"

text \<open>
  Platforms whose token endpoint answers \<open>{"id_token": []}\<close>, and
  \<open>{"id_token": "a.b.c", "access_token": {"toString": 1}}\<close>.
\<close>

definition array_platform :: platform where
  "array_platform =
     token_platform\<lparr>fetch := (\<lambda>r. Response True (Inr (JObj [(''id_token'', JArr [])])))\<rparr>"

definition unstorable_platform :: platform where
  "unstorable_platform =
     token_platform\<lparr>fetch := (\<lambda>r. Response True (Inr (JObj
        [(''id_token'', JStr ''a.b.c''), (''access_token'', JObj [(''toString'', JNum 1)])])))\<rparr>"

text \<open>Platforms that answer every request with a 4xx: a JSON error body, and a body that is not JSON.\<close>

definition failing_platform :: platform where
  "failing_platform =
     token_platform\<lparr>fetch := (\<lambda>r. Response False (Inr (JObj [(''detail'', JStr ''file too large'')])))\<rparr>"

definition unparsable_platform :: platform where
  "unparsable_platform =
     token_platform\<lparr>fetch := (\<lambda>r. Response False (Inl (SyntaxError ''Unexpected token <'')))\<rparr>"

definition clip :: File where
  "clip = \<lparr> file_name = ''clip.wav'', file_size = 1024 \<rparr>"

definition idle_form :: form_state where
  "idle_form = \<lparr> selectedFile = None, language = ''en'', isSubmitting = False,
                 error = JStr [], result = JNull \<rparr>"

definition ready_form :: form_state where
  "ready_form = idle_form\<lparr>selectedFile := Some clip\<rparr>"

section \<open>Base64: encoding and decoding are inverse\<close>



lemma length_alphabet: "length b64_alphabet = 64"
  by (simp add: b64_alphabet_def)




lemma sextets_bound: "\<forall>x \<in> set bs. x < 256 \<Longrightarrow> \<forall>v \<in> set (sextets bs). v < 64"
proof (induction bs rule: sextets.induct)
  case (1 a b c r)
  then have "a < 256" "b < 256" "c < 256" and r: "\<forall>x \<in> set r. x < 256"
    by simp_all
  moreover have "a div 4 < 64" "a mod 4 * 16 + b div 16 < 64" "b mod 16 * 4 + c div 64 < 64"
    using \<open>a < 256\<close> \<open>b < 256\<close> \<open>c < 256\<close> by arith+
  ultimately show ?case using "1.IH" by simp
next
  case (2 a b)
  then have "a < 256" "b < 256" by simp_all
  then have "a div 4 < 64" "a mod 4 * 16 + b div 16 < 64" "b mod 16 * 4 < 64"
    by arith+
  then show ?case by simp
next
  case (3 a)
  then have "a < 256" by simp
  then have "a div 4 < 64" "a mod 4 * 16 < 64" by arith+
  then show ?case by simp
next
  case 4
  then show ?case by simp
qed


lemma alphabet_chars:
  "\<forall>c \<in> set b64_alphabet.
     c \<noteq> CHR ''='' \<and> c \<noteq> CHR ''-'' \<and> c \<noteq> CHR ''_'' \<and> \<not> ascii_whitespace c"
  by (simp add: b64_alphabet_def ascii_whitespace_def charCode_def)

lemma b64_char_alphabet: "i < 64 \<Longrightarrow> b64_char i \<in> set b64_alphabet"
  by (simp add: b64_char_def length_alphabet)



lemma charCode_fromCharCode: "charCode (fromCharCode b) = unat b"
proof -
  have "unat b < 256" using unsigned_less [of b, where ?'a = nat] by simp
  then show ?thesis by (simp add: charCode_def fromCharCode_def)
qed

lemma strip_trailing_eq_padded:
  assumes "\<forall>c \<in> set body. c \<noteq> CHR ''=''"
  shows "strip_trailing_eq (body @ replicate k (CHR ''='')) = body"
proof -
  have "dropWhile (\<lambda>c. c = CHR ''='') (rev body) = rev body"
    using assms by (cases "rev body") (auto simp: rev_eq_Cons_iff)
  then show ?thesis
    by (simp add: strip_trailing_eq_def dropWhile_append)
qed

lemma byte_values: "\<forall>x \<in> set (map unat (b :: byte list)). x < 256"
proof
  fix x assume "x \<in> set (map unat b)"
  then obtain w :: byte where "x = unat w" by auto
  then show "x < 256" using unsigned_less [of w, where ?'a = nat] by simp
qed

text \<open>
  What \<open>base64UrlEncode\<close> returns: the characters of the 6-bit values, \<open>+\<close> and
  \<open>/\<close> replaced, no padding.
\<close>

lemma base64UrlEncode_sextets:
  "base64UrlEncode b =
     replace_all (CHR ''/'') (CHR ''_'')
       (replace_all (CHR ''+'') (CHR ''-'') (map b64_char (sextets (map unat b))))"
proof -
  define bs where "bs = map unat b"
  define body where "body = map b64_char (sextets bs)"
  define k where "k = (3 - length b mod 3) mod 3"
  define body' where
    "body' = replace_all (CHR ''/'') (CHR ''_'') (replace_all (CHR ''+'') (CHR ''-'') body)"
  have bytes: "\<forall>x \<in> set bs. x < 256"
    unfolding bs_def by (rule byte_values)
  have codes: "map charCode (map fromCharCode b) = bs"
    by (simp add: bs_def charCode_fromCharCode comp_def)
  have btoa_eq: "btoa (map fromCharCode b) = body @ replicate k (CHR ''='')"
    by (simp only: btoa_def codes body_def k_def length_map)
  have alph: "\<forall>c \<in> set body. c \<in> set b64_alphabet"
    using sextets_bound [OF bytes] by (auto simp: body_def b64_char_alphabet)
  have noeq': "\<forall>c \<in> set body'. c \<noteq> CHR ''=''"
    using alph alphabet_chars by (auto simp: body'_def replace_all_def)
  have "base64UrlEncode b = body'"
    using strip_trailing_eq_padded [OF noeq', of k]
    by (simp add: base64UrlEncode_def btoa_eq body'_def replace_all_def)
  then show ?thesis by (simp add: body'_def body_def bs_def)
qed


section \<open>The login URL\<close>

lemma sextets_nonempty: "bs \<noteq> [] \<Longrightarrow> sextets bs \<noteq> []"
  by (cases bs rule: sextets.cases) simp_all

lemma base64UrlEncode_nonempty: "b \<noteq> [] \<Longrightarrow> base64UrlEncode b \<noteq> []"
  using sextets_nonempty [of "map unat b"]
  by (simp add: base64UrlEncode_sextets replace_all_def)

lemma form_safe_char:
  assumes "form_unreserved (charCode c)"
  shows "concat (map form_byte (utf8 c)) = [c]"
proof -
  have lt: "charCode c < 128" and ne: "charCode c \<noteq> 32"
    using assms by (auto simp: form_unreserved_def)
  have c: "char_of (charCode c) = c"
    by (simp add: charCode_def)
  show ?thesis
    using assms lt ne by (simp add: utf8_def Let_def form_byte_def c)
qed

lemma form_encode_safe:
  "\<forall>c \<in> set s. form_unreserved (charCode c) \<Longrightarrow> form_encode s = s"
proof (induction s)
  case Nil
  then show ?case by (simp add: form_encode_def)
next
  case (Cons c s)
  then have "form_encode s = s" and "concat (map form_byte (utf8 c)) = [c]"
    by (simp_all add: form_safe_char)
  then show ?case by (simp add: form_encode_def)
qed

lemma alphabet_unreserved:
  "\<forall>c \<in> set b64_alphabet.
     form_unreserved (charCode (if (if c = CHR ''+'' then CHR ''-'' else c) = CHR ''/'' then CHR ''_''
        else (if c = CHR ''+'' then CHR ''-'' else c)))"
  by (simp add: b64_alphabet_def form_unreserved_def charCode_def)

text \<open>The serialiser leaves a base64url string as it is.\<close>

lemma form_encode_base64Url: "form_encode (base64UrlEncode b) = base64UrlEncode b"
proof (rule form_encode_safe, rule ballI)
  fix c assume "c \<in> set (base64UrlEncode b)"
  then obtain i where i: "i \<in> set (sextets (map unat b))"
    and c: "c = (if (if b64_char i = CHR ''+'' then CHR ''-'' else b64_char i) = CHR ''/'' then CHR ''_''
        else (if b64_char i = CHR ''+'' then CHR ''-'' else b64_char i))"
    by (auto simp: base64UrlEncode_sextets replace_all_def)
  from sextets_bound [OF byte_values] i have "i < 64" by blast
  then have "b64_char i \<in> set b64_alphabet" by (rule b64_char_alphabet)
  with alphabet_unreserved show "form_unreserved (charCode c)"
    unfolding c by blast
qed

lemma form_encode_names:
  "form_encode ''code_challenge'' = ''code_challenge''"
  "form_encode ''code_challenge_method'' = ''code_challenge_method''"
  "form_encode ''S256'' = ''S256''"
  by (rule form_encode_safe, simp add: form_unreserved_def charCode_def)+

text \<open>
  Claim C1. For every config with non-empty domain and client id, the URL that
  \<open>buildLoginUrl\<close> returns is the authorize URL followed by \<open>?\<close> and the serialised
  parameters, which end with \<open>&code_challenge=\<close>, the challenge, and
  \<open>&code_challenge_method=S256\<close>; the challenge is not empty and is the base64url
  encoding, without padding, of the SHA-256 digest of the very string that
  \<open>buildLoginUrl\<close> stored in session storage under \<open>cognito_pkce_verifier\<close>. The digest
  is the platform's; all that is used of it is that it has 32 bytes.
\<close>

theorem buildLoginUrl_pkce:
  assumes "domain config \<noteq> [] \<and> clientId config \<noteq> []"
    and "\<forall>m. length (digest_sha256 p m) = 32"
    and "buildLoginUrl p config w = (url, w')"
  shows "\<exists>verifier challenge.
      sessionStorage w' ''cognito_pkce_verifier'' = Some verifier
      \<and> challenge = base64UrlEncode (digest_sha256 p (TextEncoder_encode verifier))
      \<and> challenge \<noteq> []
      \<and> url = buildHostedUrl config ''/oauth2/authorize'' @ ''?'' @
          params_toString
            [(''client_id'', clientId config), (''response_type'', ''code''),
             (''scope'', scope config), (''redirect_uri'', redirectUri config),
             (''code_challenge'', challenge), (''code_challenge_method'', ''S256'')]
      \<and> (\<exists>pre. url = pre @ ''&code_challenge='' @ challenge @ ''&code_challenge_method=S256'')"
proof -
  define verifier where "verifier = randomVerifier p 64"
  define challenge where
    "challenge = base64UrlEncode (digest_sha256 p (TextEncoder_encode verifier))"
  have w': "sessionStorage w' ''cognito_pkce_verifier'' = Some verifier"
    using assms(3)
    by (auto simp: buildLoginUrl_def Let_def setItem_def verifier_def CODE_VERIFIER_KEY_def)
  have url: "url = buildHostedUrl config ''/oauth2/authorize'' @ ''?'' @
          params_toString
            [(''client_id'', clientId config), (''response_type'', ''code''),
             (''scope'', scope config), (''redirect_uri'', redirectUri config),
             (''code_challenge'', challenge), (''code_challenge_method'', ''S256'')]"
    using assms(3)
    by (auto simp: buildLoginUrl_def Let_def verifier_def challenge_def createCodeChallenge_def)
  have "digest_sha256 p (TextEncoder_encode verifier) \<noteq> []"
    using assms(2) by (metis length_0_conv zero_neq_numeral)
  then have ne: "challenge \<noteq> []"
    unfolding challenge_def by (rule base64UrlEncode_nonempty)
  have enc: "form_encode challenge = challenge"
    unfolding challenge_def by (rule form_encode_base64Url)
  have "params_toString
            [(''client_id'', clientId config), (''response_type'', ''code''),
             (''scope'', scope config), (''redirect_uri'', redirectUri config),
             (''code_challenge'', challenge), (''code_challenge_method'', ''S256'')]
      = (form_encode ''client_id'' @ ''='' @ form_encode (clientId config) @ ''&'' @
         form_encode ''response_type'' @ ''='' @ form_encode ''code'' @ ''&'' @
         form_encode ''scope'' @ ''='' @ form_encode (scope config) @ ''&'' @
         form_encode ''redirect_uri'' @ ''='' @ form_encode (redirectUri config))
        @ ''&code_challenge='' @ challenge @ ''&code_challenge_method=S256''"
    by (simp add: params_toString_def enc form_encode_names)
  then have "\<exists>pre. url = pre @ ''&code_challenge='' @ challenge @ ''&code_challenge_method=S256''"
    unfolding url by (metis append.assoc)
  with w' url ne show ?thesis
    unfolding challenge_def by blast
qed

theorem buildLoginUrl_pkce_witness:
  "domain example_config \<noteq> [] \<and> clientId example_config \<noteq> []
   \<and> fst (buildLoginUrl token_platform example_config example_world) =
       ''https://auth.example.com/oauth2/authorize?client_id=client1&response_type=code&scope=openid+email+profile&redirect_uri=https%3A%2F%2Fapp.example.com&code_challenge=QUFFQ0F3UUZCZ2NJQ1FvTERBME9EeEFSRWhNVUZSWVg&code_challenge_method=S256''
   \<and> (\<exists>verifier challenge.
        sessionStorage (snd (buildLoginUrl token_platform example_config example_world))
          ''cognito_pkce_verifier'' = Some verifier
        \<and> challenge = base64UrlEncode (digest_sha256 token_platform (TextEncoder_encode verifier))
        \<and> challenge \<noteq> []
        \<and> (\<exists>pre. fst (buildLoginUrl token_platform example_config example_world)
              = pre @ ''&code_challenge='' @ challenge @ ''&code_challenge_method=S256''))"
proof -
  have h1: "domain example_config \<noteq> [] \<and> clientId example_config \<noteq> []"
    by (simp add: example_config_def)
  have h2: "\<forall>m. length (digest_sha256 token_platform m) = 32"
    by (simp add: token_platform_def min_def)
  have h3: "buildLoginUrl token_platform example_config example_world =
      (fst (buildLoginUrl token_platform example_config example_world),
       snd (buildLoginUrl token_platform example_config example_world))"
    by simp
  have concrete: "fst (buildLoginUrl token_platform example_config example_world) =
       ''https://auth.example.com/oauth2/authorize?client_id=client1&response_type=code&scope=openid+email+profile&redirect_uri=https%3A%2F%2Fapp.example.com&code_challenge=QUFFQ0F3UUZCZ2NJQ1FvTERBME9EeEFSRWhNVUZSWVg&code_challenge_method=S256''"
    by code_simp
  from buildLoginUrl_pkce [OF h1 h2 h3] h1 concrete show ?thesis
    by blast
qed

section \<open>The code exchange\<close>

text \<open>
  Claim C2. For every config and code, when session storage holds no verifier under
  \<open>cognito_pkce_verifier\<close> (none, or the empty string, which \<open>!verifier\<close> treats alike),
  \<open>exchangeCodeForTokens\<close> rejects with "Missing PKCE code verifier" and leaves the
  browser state as it was: no request is issued.
\<close>

theorem exchange_without_verifier:
  assumes "sessionStorage w CODE_VERIFIER_KEY = None \<or> sessionStorage w CODE_VERIFIER_KEY = Some []"
  shows "exchangeCodeForTokens p config code w = (Inl (Error ''Missing PKCE code verifier''), w)
    \<and> fetched (snd (exchangeCodeForTokens p config code w)) = fetched w"
  using assms by (auto simp: exchangeCodeForTokens_def getItem_def)

theorem exchange_without_verifier_witness:
  "sessionStorage example_world CODE_VERIFIER_KEY = None
   \<and> fst (exchangeCodeForTokens token_platform example_config ''abc'' example_world)
       = Inl (Error ''Missing PKCE code verifier'')
   \<and> fetched (snd (exchangeCodeForTokens token_platform example_config ''abc'' example_world)) = []"
proof -
  have h: "sessionStorage example_world CODE_VERIFIER_KEY = None"
    by (simp add: example_world_def)
  show ?thesis
    using h exchange_without_verifier [of example_world token_platform example_config "''abc''"]
    by (simp add: example_world_def)
qed

lemma get_prop_null: "get_prop payload k = Inl e \<Longrightarrow> payload = JNull"
  by (cases payload) simp_all

lemma store_if_truthy_Inr:
  assumes "store_if_truthy p k v w = Inr w'"
  shows "(\<not> js_truthy v \<and> w' = w)
    \<or> (\<exists>x s. v = Some x \<and> truthy x \<and> to_string (number_toString p) x = Inr s
          \<and> w' = w\<lparr>localStorage := (localStorage w)(k \<mapsto> s)\<rparr>)"
proof (cases v)
  case None
  with assms show ?thesis by (simp add: store_if_truthy_def js_truthy_def)
next
  case (Some x)
  show ?thesis
  proof (cases "truthy x")
    case False
    with Some assms show ?thesis by (simp add: store_if_truthy_def js_truthy_def)
  next
    case True
    with Some assms show ?thesis
      by (cases "to_string (number_toString p) x")
        (simp_all add: store_if_truthy_def js_truthy_def setItem_def)
  qed
qed

lemma store_if_truthy_Inl:
  assumes "store_if_truthy p k v w = Inl e"
  shows "\<exists>x. v = Some x \<and> truthy x \<and> to_string (number_toString p) x = Inl e"
proof (cases v)
  case None
  with assms show ?thesis by (simp add: store_if_truthy_def)
next
  case (Some x)
  show ?thesis
  proof (cases "truthy x")
    case False
    with Some assms show ?thesis by (simp add: store_if_truthy_def)
  next
    case True
    with Some assms show ?thesis
      by (cases "to_string (number_toString p) x") (simp_all add: store_if_truthy_def)
  qed
qed

lemma store_if_truthy_falsy: "\<not> js_truthy v \<Longrightarrow> store_if_truthy p k v w = Inr w"
  by (cases v) (simp_all add: store_if_truthy_def js_truthy_def)

lemma store_if_truthy_string:
  "store_if_truthy p k (Some (JStr (c # s))) w
     = Inr (w\<lparr>localStorage := (localStorage w)(k \<mapsto> c # s)\<rparr>)"
  by (simp add: store_if_truthy_def setItem_def)

text \<open>The exchange once the endpoint has answered with success and a JSON value.\<close>

lemma exchange_answered:
  assumes "sessionStorage w CODE_VERIFIER_KEY = Some verifier" and "verifier \<noteq> []"
    and "fetch p (token_request config code verifier) = Response True (Inr payload)"
    and "get_prop payload ''id_token'' = Inr idt"
    and "get_prop payload ''access_token'' = Inr acc"
  shows "exchangeCodeForTokens p config code w =
     (case store_if_truthy p ''cognito_id_token'' idt
             (w\<lparr>fetched := fetched w @ [token_request config code verifier]\<rparr>) of
        Inl e \<Rightarrow> (Inl e, w\<lparr>fetched := fetched w @ [token_request config code verifier]\<rparr>)
      | Inr w2 \<Rightarrow>
          (case store_if_truthy p ''cognito_access_token'' acc w2 of
             Inl e \<Rightarrow> (Inl e, w2)
           | Inr w3 \<Rightarrow>
               (Inr (js_truthy idt \<or> js_truthy acc),
                w3\<lparr>sessionStorage := (sessionStorage w3)(CODE_VERIFIER_KEY := None)\<rparr>)))"
  using assms
  by (simp add: exchangeCodeForTokens_def getItem_def removeItem_def Let_def
      split: sum.splits)

lemma store_if_truthy_stored:
  assumes "store_if_truthy p k v w = Inr w'"
  shows "sessionStorage w' = sessionStorage w"
    and "\<forall>x. v = Some x \<and> truthy x \<longrightarrow>
          (\<exists>s. to_string (number_toString p) x = Inr s \<and> localStorage w' = (localStorage w)(k \<mapsto> s))"
    and "\<not> js_truthy v \<longrightarrow> localStorage w' = localStorage w"
  using store_if_truthy_Inr [OF assms] by (auto simp: js_truthy_def)




text \<open>
  Where a rejected exchange leaves the storages: session storage as it was; durable
  storage as it was, unless the conversion of the access token threw after the ID token
  had been written.
\<close>

lemma exchange_rejects:
  assumes "exchangeCodeForTokens p config code w = (Inl e, w')"
  shows "sessionStorage w' = sessionStorage w
    \<and> (localStorage w' = localStorage w
        \<or> (\<exists>verifier payload idt s acc.
              sessionStorage w CODE_VERIFIER_KEY = Some verifier \<and> verifier \<noteq> []
              \<and> fetch p (token_request config code verifier) = Response True (Inr payload)
              \<and> get_prop payload ''id_token'' = Inr (Some idt) \<and> truthy idt
              \<and> to_string (number_toString p) idt = Inr s
              \<and> get_prop payload ''access_token'' = Inr (Some acc) \<and> truthy acc
              \<and> to_string (number_toString p) acc = Inl e
              \<and> localStorage w' = (localStorage w)(''cognito_id_token'' \<mapsto> s)))"
proof (cases "getItem (sessionStorage w) CODE_VERIFIER_KEY")
  case None
  with assms show ?thesis by (simp add: exchangeCodeForTokens_def)
next
  case (Some verifier)
  then have ver: "sessionStorage w CODE_VERIFIER_KEY = Some verifier"
    by (simp add: getItem_def)
  define w1 where "w1 = w\<lparr>fetched := fetched w @ [token_request config code verifier]\<rparr>"
  have l1: "localStorage w1 = localStorage w" and s1: "sessionStorage w1 = sessionStorage w"
    by (simp_all add: w1_def)
  show ?thesis
  proof (cases "verifier = []")
    case True
    with Some assms show ?thesis by (simp add: exchangeCodeForTokens_def)
  next
    case ne: False
    show ?thesis
    proof (cases "fetch p (token_request config code verifier)")
      case (Rejected x)
      with Some ne assms show ?thesis by (auto simp: exchangeCodeForTokens_def Let_def)
    next
      case (Response ok body)
      show ?thesis
      proof (cases "ok \<and> (\<exists>payload. body = Inr payload \<and> payload \<noteq> JNull)")
        case False
        then consider "\<not> ok" | x where "ok" "body = Inl x" | "ok" "body = Inr JNull"
          by (cases body) auto
        then show ?thesis
        proof cases
          case 1
          with Some ne Response assms show ?thesis
            by (auto simp: exchangeCodeForTokens_def Let_def)
        next
          case 2
          with Some ne Response assms show ?thesis
            by (auto simp: exchangeCodeForTokens_def Let_def)
        next
          case 3
          with Some ne Response assms show ?thesis
            by (auto simp: exchangeCodeForTokens_def Let_def)
        qed
      next
        case True
        then obtain payload where ok: "ok" and body: "body = Inr payload" and nn: "payload \<noteq> JNull"
          by blast
        obtain idt where idt: "get_prop payload ''id_token'' = Inr idt"
          using nn get_prop_null [of payload "''id_token''"]
          by (cases "get_prop payload ''id_token''") auto
        obtain acc where acc: "get_prop payload ''access_token'' = Inr acc"
          using nn get_prop_null [of payload "''access_token''"]
          by (cases "get_prop payload ''access_token''") auto
        have f: "fetch p (token_request config code verifier) = Response True (Inr payload)"
          using Response ok body by simp
        note ex = exchange_answered [OF ver ne f idt acc, folded w1_def]
        show ?thesis
        proof (cases "store_if_truthy p ''cognito_id_token'' idt w1")
          case (Inl x)
          with ex assms have "w' = w1" by simp
          then show ?thesis by (simp add: l1 s1)
        next
          case (Inr w2)
          note st2 = store_if_truthy_stored [OF Inr]
          show ?thesis
          proof (cases "store_if_truthy p ''cognito_access_token'' acc w2")
            case inl3: (Inl x)
            with ex Inr assms have w': "w' = w2" and x: "x = e" by simp_all
            from store_if_truthy_Inl [OF inl3] x obtain y where
              y: "acc = Some y" "truthy y" "to_string (number_toString p) y = Inl e" by blast
            have s: "sessionStorage w' = sessionStorage w"
              using st2(1) by (simp add: w' s1)
            show ?thesis
            proof (cases "js_truthy idt")
              case False
              then show ?thesis using st2(3) s by (simp add: w' l1)
            next
              case True
              then obtain v where v: "idt = Some v" "truthy v"
                by (cases idt) (auto simp: js_truthy_def)
              then obtain t where t: "to_string (number_toString p) v = Inr t"
                "localStorage w2 = (localStorage w1)(''cognito_id_token'' \<mapsto> t)"
                using st2(2) by blast
              have "\<exists>verifier payload idt s acc.
                  sessionStorage w CODE_VERIFIER_KEY = Some verifier \<and> verifier \<noteq> []
                  \<and> fetch p (token_request config code verifier) = Response True (Inr payload)
                  \<and> get_prop payload ''id_token'' = Inr (Some idt) \<and> truthy idt
                  \<and> to_string (number_toString p) idt = Inr s
                  \<and> get_prop payload ''access_token'' = Inr (Some acc) \<and> truthy acc
                  \<and> to_string (number_toString p) acc = Inl e
                  \<and> localStorage w' = (localStorage w)(''cognito_id_token'' \<mapsto> s)"
                using ver ne f idt acc v y t by (auto simp: w' l1)
              with s show ?thesis by blast
            qed
          next
            case (Inr w3)
            with ex \<open>store_if_truthy p ''cognito_id_token'' idt w1 = Inr w2\<close> assms
            show ?thesis by simp
          qed
        qed
      qed
    qed
  qed
qed

text \<open>
  Claim C10, as stated, fails: when the answer is
  \<open>{"id_token": "a.b.c", "access_token": {"toString": 1}}\<close>, the call rejects with the
  \<open>TypeError\<close> of the second \<open>setItem\<close>, after the first has written
  \<open>cognito_id_token\<close>.
\<close>

theorem exchange_error_no_writes_counterexample:
  "fst (exchangeCodeForTokens unstorable_platform example_config ''abc'' pending_world)
     = Inl (TypeError ''Cannot convert object to primitive value'')
   \<and> localStorage pending_world ''cognito_id_token'' = None
   \<and> localStorage (snd (exchangeCodeForTokens unstorable_platform example_config ''abc'' pending_world))
       ''cognito_id_token'' = Some ''a.b.c''"
  by (simp add: exchangeCodeForTokens_def pending_world_def example_world_def getItem_def
      CODE_VERIFIER_KEY_def unstorable_platform_def token_platform_def Let_def
      store_if_truthy_def setItem_def)

text \<open>
  Claim C10, amended. Whenever \<open>exchangeCodeForTokens\<close> signals an error, session storage
  is unchanged (the verifier is not cleared) and the durable key
  \<open>cognito_access_token\<close> is unchanged. Durable storage is unchanged altogether when the
  verifier is missing or the endpoint answered with a non-success status, and on every
  other rejection but one: the \<open>TypeError\<close> thrown when the present access token of a
  successful answer cannot be converted to a string, which follows the write of the
  present ID token under \<open>cognito_id_token\<close>.
\<close>

theorem exchange_error_storage:
  assumes "fst (exchangeCodeForTokens p config code w) = Inl e"
  shows "sessionStorage (snd (exchangeCodeForTokens p config code w)) = sessionStorage w
    \<and> localStorage (snd (exchangeCodeForTokens p config code w)) ''cognito_access_token''
        = localStorage w ''cognito_access_token''
    \<and> (localStorage (snd (exchangeCodeForTokens p config code w)) = localStorage w
        \<or> (\<exists>verifier payload idt s acc.
              sessionStorage w CODE_VERIFIER_KEY = Some verifier \<and> verifier \<noteq> []
              \<and> fetch p (token_request config code verifier) = Response True (Inr payload)
              \<and> get_prop payload ''id_token'' = Inr (Some idt) \<and> truthy idt
              \<and> to_string (number_toString p) idt = Inr s
              \<and> get_prop payload ''access_token'' = Inr (Some acc) \<and> truthy acc
              \<and> to_string (number_toString p) acc = Inl e
              \<and> localStorage (snd (exchangeCodeForTokens p config code w))
                  = (localStorage w)(''cognito_id_token'' \<mapsto> s)))
    \<and> (sessionStorage w CODE_VERIFIER_KEY = None \<or> sessionStorage w CODE_VERIFIER_KEY = Some []
          \<longrightarrow> localStorage (snd (exchangeCodeForTokens p config code w)) = localStorage w)
    \<and> (\<forall>verifier body. sessionStorage w CODE_VERIFIER_KEY = Some verifier
          \<and> fetch p (token_request config code verifier) = Response False body
          \<longrightarrow> localStorage (snd (exchangeCodeForTokens p config code w)) = localStorage w)"
proof -
  define w' where "w' = snd (exchangeCodeForTokens p config code w)"
  have "exchangeCodeForTokens p config code w = (Inl e, w')"
    using assms by (simp add: w'_def prod_eq_iff)
  note r = exchange_rejects [OF this]
  have a: "localStorage w' ''cognito_access_token'' = localStorage w ''cognito_access_token''"
    using r by auto
  have b: "sessionStorage w CODE_VERIFIER_KEY = None \<or> sessionStorage w CODE_VERIFIER_KEY = Some []
      \<longrightarrow> localStorage w' = localStorage w"
    using r by auto
  have c: "\<forall>verifier body. sessionStorage w CODE_VERIFIER_KEY = Some verifier
          \<and> fetch p (token_request config code verifier) = Response False body
          \<longrightarrow> localStorage w' = localStorage w"
    using r by auto
  show ?thesis
    unfolding w'_def [symmetric] using r a b c by blast
qed

lemma exchange_not_ok:
  assumes "sessionStorage w CODE_VERIFIER_KEY = Some verifier" and "verifier \<noteq> []"
    and "fetch p (token_request config code verifier) = Response False body"
  shows "fst (exchangeCodeForTokens p config code w) = Inl (Error ''Token exchange failed'')"
  using assms by (simp add: exchangeCodeForTokens_def getItem_def Let_def)

theorem exchange_error_storage_witness:
  "fst (exchangeCodeForTokens failing_platform example_config ''abc'' pending_world)
     = Inl (Error ''Token exchange failed'')
   \<and> localStorage (snd (exchangeCodeForTokens failing_platform example_config ''abc'' pending_world))
       = localStorage pending_world
   \<and> sessionStorage (snd (exchangeCodeForTokens failing_platform example_config ''abc'' pending_world))
       CODE_VERIFIER_KEY = Some ''v3r1f13r''"
proof -
  have v: "sessionStorage pending_world CODE_VERIFIER_KEY = Some ''v3r1f13r''"
    by (simp add: pending_world_def)
  have f: "fetch failing_platform (token_request example_config ''abc'' ''v3r1f13r'')
      = Response False (Inr (JObj [(''detail'', JStr ''file too large'')]))"
    by (simp add: failing_platform_def)
  have h: "fst (exchangeCodeForTokens failing_platform example_config ''abc'' pending_world)
     = Inl (Error ''Token exchange failed'')"
    by (rule exchange_not_ok [OF v _ f]) simp
  show ?thesis
    using h v f exchange_error_storage [OF h] by simp
qed

section \<open>The user label\<close>

lemma base64UrlDecode_Nil: "base64UrlDecode [] = Inr []"
  by (simp add: base64UrlDecode_def padEnd_def replace_all_def atob_def strip_padding_def)

lemma or_chain_object:
  "or_chain (JObj kvs) ks =
     Inr (case find (\<lambda>k. js_truthy (map_of kvs k)) ks of
            None \<Rightarrow> JStr []
          | Some k \<Rightarrow> (case map_of kvs k of Some v \<Rightarrow> v | None \<Rightarrow> JStr []))"
  by (induction ks) (auto simp: js_truthy_def split: option.splits)

lemma getUserLabel_decoded:
  assumes "localStorage w ''cognito_id_token'' = Some idToken"
    and "split (CHR ''.'') idToken = h # payload # rest"
    and "payload \<noteq> []"
    and "base64UrlDecode payload = Inr text"
    and "json_parse p text = Some decoded"
  shows "getUserLabel p w = (case or_chain decoded label_claims of Inl e \<Rightarrow> JStr [] | Inr v \<Rightarrow> v)"
proof -
  have "idToken \<noteq> []" using assms(2) by auto
  then show ?thesis using assms by (simp add: getUserLabel_def getItem_def)
qed

lemma getUserLabel_undecodable:
  assumes "localStorage w ''cognito_id_token'' = Some idToken"
    and "split (CHR ''.'') idToken = h # payload # rest"
    and "(\<exists>e. base64UrlDecode payload = Inl e)
       \<or> (\<exists>text. base64UrlDecode payload = Inr text \<and> json_parse p text = None)"
  shows "getUserLabel p w = JStr []"
  using assms by (auto simp: getUserLabel_def getItem_def)

text \<open>
  Claim C6. For a stored ID token with a middle segment: when the segment decodes to the
  text \<open>{"email":"x@y.com"}\<close>, parsed as the object with that one property, the label
  is "x@y.com"; when the segment is not base64url, or decodes to a text that is not
  JSON, the label is the empty string; in general, when it decodes to a JSON object, the
  label is the value of the first claim among name, given_name, email,
  cognito:username, preferred_username, username that is present (truthy), and the
  empty string when none is.
\<close>

theorem getUserLabel_claims:
  assumes tok: "localStorage w ''cognito_id_token'' = Some idToken"
    and seg: "split (CHR ''.'') idToken = h # payload # rest"
  shows "(base64UrlDecode payload = Inr ''{\"email\":\"x@y.com\"}''
          \<and> json_parse p ''{\"email\":\"x@y.com\"}'' = Some (JObj [(''email'', JStr ''x@y.com'')])
          \<longrightarrow> getUserLabel p w = JStr ''x@y.com'')
    \<and> ((\<exists>e. base64UrlDecode payload = Inl e)
          \<or> (\<exists>text. base64UrlDecode payload = Inr text \<and> json_parse p text = None)
          \<longrightarrow> getUserLabel p w = JStr [])
    \<and> (\<forall>text kvs. text \<noteq> [] \<and> base64UrlDecode payload = Inr text
            \<and> json_parse p text = Some (JObj kvs) \<longrightarrow>
          (\<forall>i v. i < length label_claims \<and> map_of kvs (label_claims ! i) = Some v \<and> truthy v
              \<and> (\<forall>j<i. \<not> js_truthy (map_of kvs (label_claims ! j)))
              \<longrightarrow> getUserLabel p w = v)
          \<and> ((\<forall>k \<in> set label_claims. \<not> js_truthy (map_of kvs k)) \<longrightarrow> getUserLabel p w = JStr []))"
proof (intro conjI impI allI)
  assume a: "base64UrlDecode payload = Inr ''{\"email\":\"x@y.com\"}''
      \<and> json_parse p ''{\"email\":\"x@y.com\"}'' = Some (JObj [(''email'', JStr ''x@y.com'')])"
  then have "payload \<noteq> []" using base64UrlDecode_Nil by auto
  from getUserLabel_decoded [OF tok seg this] a
  show "getUserLabel p w = JStr ''x@y.com''"
    by (simp add: label_claims_def)
next
  assume "(\<exists>e. base64UrlDecode payload = Inl e)
       \<or> (\<exists>text. base64UrlDecode payload = Inr text \<and> json_parse p text = None)"
  then show "getUserLabel p w = JStr []"
    by (rule getUserLabel_undecodable [OF tok seg])
next
  fix t kvs i v
  assume a: "t \<noteq> [] \<and> base64UrlDecode payload = Inr t \<and> json_parse p t = Some (JObj kvs)"
    and b: "i < length label_claims \<and> map_of kvs (label_claims ! i) = Some v \<and> truthy v
              \<and> (\<forall>j<i. \<not> js_truthy (map_of kvs (label_claims ! j)))"
  from a have ne: "payload \<noteq> []" using base64UrlDecode_Nil by auto
  have "find (\<lambda>k. js_truthy (map_of kvs k)) label_claims = Some (label_claims ! i)"
    unfolding find_Some_iff using b by (auto simp: js_truthy_def)
  then show "getUserLabel p w = v"
    using getUserLabel_decoded [OF tok seg ne, of t p "JObj kvs"] a b
    by (simp add: or_chain_object)
next
  fix t kvs
  assume a: "t \<noteq> [] \<and> base64UrlDecode payload = Inr t \<and> json_parse p t = Some (JObj kvs)"
    and b: "\<forall>k \<in> set label_claims. \<not> js_truthy (map_of kvs k)"
  from a have ne: "payload \<noteq> []" using base64UrlDecode_Nil by auto
  have "find (\<lambda>k. js_truthy (map_of kvs k)) label_claims = None"
    unfolding find_None_iff using b by blast
  then show "getUserLabel p w = JStr []"
    using getUserLabel_decoded [OF tok seg ne, of t p "JObj kvs"] a
    by (simp add: or_chain_object)
qed

theorem getUserLabel_claims_witness:
  "base64UrlDecode ''eyJlbWFpbCI6InhAeS5jb20ifQ'' = Inr ''{\"email\":\"x@y.com\"}''
   \<and> getUserLabel token_platform labelled_world = JStr ''x@y.com''
   \<and> base64UrlDecode ''!!!'' = Inl InvalidCharacterError
   \<and> getUserLabel token_platform garbled_world = JStr []"
proof -
  have t1: "localStorage labelled_world ''cognito_id_token'' = Some ''hdr.eyJlbWFpbCI6InhAeS5jb20ifQ.sig''"
    by (simp add: labelled_world_def)
  have s1: "split (CHR ''.'') ''hdr.eyJlbWFpbCI6InhAeS5jb20ifQ.sig''
      = ''hdr'' # ''eyJlbWFpbCI6InhAeS5jb20ifQ'' # [''sig'']"
    by simp
  have d1: "base64UrlDecode ''eyJlbWFpbCI6InhAeS5jb20ifQ'' = Inr ''{\"email\":\"x@y.com\"}''"
    by code_simp
  have j1: "json_parse token_platform ''{\"email\":\"x@y.com\"}''
      = Some (JObj [(''email'', JStr ''x@y.com'')])"
    by (simp add: token_platform_def)
  have t2: "localStorage garbled_world ''cognito_id_token'' = Some ''hdr.!!!.sig''"
    by (simp add: garbled_world_def)
  have s2: "split (CHR ''.'') ''hdr.!!!.sig'' = ''hdr'' # ''!!!'' # [''sig'']"
    by simp
  have d2: "base64UrlDecode ''!!!'' = Inl InvalidCharacterError"
    by code_simp
  show ?thesis
    using getUserLabel_claims [OF t1 s1, of token_platform]
      getUserLabel_claims [OF t2 s2, of token_platform] d1 j1 d2
    by simp
qed

section \<open>Page load and the authenticated state\<close>

lemma code_effect_error:
  assumes "params_get (search w) ''error'' = Some e" and "e \<noteq> []"
  shows "code_effect p config st w = (st\<lparr>authError := e\<rparr>, w)"
  using assms by (simp add: code_effect_def str_truthy_def nullish_def)

text \<open>
  Claim C4, as stated, fails: a page load with \<open>?error=access_denied\<close> while an ID
  token is stored leaves the state authenticated; and a page load with an empty
  \<open>error\<close> parameter and a \<open>code\<close> does attempt the exchange.
\<close>

theorem error_param_counterexample:
  "params_get (search returning_world) ''error'' = Some ''access_denied''
   \<and> authed (fst (App_mount token_platform example_config returning_world))
   \<and> params_get (search empty_error_world) ''error'' = Some []
   \<and> fetched (snd (App_mount token_platform example_config empty_error_world))
       = [token_request example_config ''abc'' ''v3r1f13r'']"
proof -
  have a: "params_get (search returning_world) ''error'' = Some ''access_denied''"
    by (simp add: returning_world_def params_get_def)
  have b: "authed (fst (App_mount token_platform example_config returning_world))"
    unfolding App_mount_def Let_def code_effect_error [OF a, simplified]
    by (simp add: label_effect_def isAuthenticated_def returning_world_def getItem_def
        str_truthy_def)
  have c: "params_get (search empty_error_world) ''error'' = Some []"
    by (simp add: empty_error_world_def params_get_def)
  have d: "exchangeCodeForTokens token_platform example_config ''abc'' empty_error_world
     = (Inr True, empty_error_world\<lparr>fetched := [token_request example_config ''abc'' ''v3r1f13r''],
          localStorage := [''cognito_id_token'' \<mapsto> ''a.b.c''], sessionStorage := Map.empty\<rparr>)"
    by (simp add: exchangeCodeForTokens_def empty_error_world_def getItem_def CODE_VERIFIER_KEY_def
        token_platform_def Let_def store_if_truthy_def setItem_def removeItem_def js_truthy_def)
  have s: "search empty_error_world = [(''error'', []), (''code'', ''abc'')]"
    by (simp add: empty_error_world_def)
  have e: "fetched (snd (App_mount token_platform example_config empty_error_world))
       = [token_request example_config ''abc'' ''v3r1f13r'']"
    by (simp add: App_mount_def Let_def code_effect_def exchange_and_settle_def d s
        params_get_def str_truthy_def nullish_def replaceState_def)
  show ?thesis using a b c e by simp
qed

text \<open>
  Claim C4, amended. On every page load whose query string has a non-empty \<open>error\<close>
  parameter, the error value of the resulting state is that parameter's value, no
  exchange is attempted (the browser state is unchanged: no request, no storage write),
  and the state is authenticated exactly when durable storage already holds a token.
\<close>

theorem error_param_load:
  assumes "params_get (search w) ''error'' = Some e" and "e \<noteq> []"
  shows "App_mount p config w =
     (\<lparr> authed = isAuthenticated w, authError = e,
         userLabel = (if isAuthenticated w then getUserLabel p w else JStr []) \<rparr>, w)"
  unfolding App_mount_def Let_def code_effect_error [OF assms]
  by (simp add: label_effect_def)

theorem error_param_load_witness:
  "params_get (search returning_world) ''error'' = Some ''access_denied''
   \<and> authError (fst (App_mount token_platform example_config returning_world)) = ''access_denied''
   \<and> authed (fst (App_mount token_platform example_config returning_world))
       = isAuthenticated returning_world
   \<and> snd (App_mount token_platform example_config returning_world) = returning_world"
proof -
  have h1: "params_get (search returning_world) ''error'' = Some ''access_denied''"
    by (simp add: returning_world_def params_get_def)
  have h2: "''access_denied'' \<noteq> []" by simp
  show ?thesis
    using h1 error_param_load [OF h1 h2, of token_platform example_config] by simp
qed

lemma isAuthenticated_local:
  "localStorage w' = localStorage w \<Longrightarrow> isAuthenticated w' = isAuthenticated w"
  by (simp add: isAuthenticated_def)

lemma isAuthenticated_iff:
  "isAuthenticated w \<longleftrightarrow>
     (\<exists>v. localStorage w ''cognito_id_token'' = Some v \<and> v \<noteq> [])
     \<or> (\<exists>v. localStorage w ''cognito_access_token'' = Some v \<and> v \<noteq> [])"
  by (auto simp: isAuthenticated_def str_truthy_def getItem_def split: option.splits)

text \<open>A fulfilled exchange: the answer, and the two stores that succeeded.\<close>

lemma exchange_fulfils:
  assumes "exchangeCodeForTokens p config code w = (Inr b, w')"
  shows "\<exists>verifier payload idt acc w1 w2 w3.
      fetch p (token_request config code verifier) = Response True (Inr payload)
      \<and> get_prop payload ''id_token'' = Inr idt
      \<and> get_prop payload ''access_token'' = Inr acc
      \<and> localStorage w1 = localStorage w
      \<and> store_if_truthy p ''cognito_id_token'' idt w1 = Inr w2
      \<and> store_if_truthy p ''cognito_access_token'' acc w2 = Inr w3
      \<and> b = (js_truthy idt \<or> js_truthy acc)
      \<and> localStorage w' = localStorage w3"
proof (cases "getItem (sessionStorage w) CODE_VERIFIER_KEY")
  case None
  with assms show ?thesis by (simp add: exchangeCodeForTokens_def)
next
  case (Some verifier)
  then have ver: "sessionStorage w CODE_VERIFIER_KEY = Some verifier"
    by (simp add: getItem_def)
  define w1 where "w1 = w\<lparr>fetched := fetched w @ [token_request config code verifier]\<rparr>"
  have l1: "localStorage w1 = localStorage w"
    by (simp add: w1_def)
  have ne: "verifier \<noteq> []"
    using Some assms by (auto simp: exchangeCodeForTokens_def)
  show ?thesis
  proof (cases "fetch p (token_request config code verifier)")
    case (Rejected x)
    with Some ne assms show ?thesis by (auto simp: exchangeCodeForTokens_def Let_def)
  next
    case (Response ok body)
    with Some ne assms have ok: "ok"
      by (auto simp: exchangeCodeForTokens_def Let_def split: if_splits)
    with Some ne assms Response obtain payload where body: "body = Inr payload"
      by (cases body) (auto simp: exchangeCodeForTokens_def Let_def)
    have f: "fetch p (token_request config code verifier) = Response True (Inr payload)"
      using Response ok body by simp
    obtain idt where idt: "get_prop payload ''id_token'' = Inr idt"
      using Some ne assms f
      by (cases "get_prop payload ''id_token''")
        (auto simp: exchangeCodeForTokens_def Let_def)
    have "payload \<noteq> JNull" using idt by auto
    then obtain acc where acc: "get_prop payload ''access_token'' = Inr acc"
      using get_prop_null [of payload "''access_token''"]
      by (cases "get_prop payload ''access_token''") auto
    note ex = exchange_answered [OF ver ne f idt acc, folded w1_def]
    obtain w2 where w2: "store_if_truthy p ''cognito_id_token'' idt w1 = Inr w2"
      using ex assms by (cases "store_if_truthy p ''cognito_id_token'' idt w1") auto
    obtain w3 where w3: "store_if_truthy p ''cognito_access_token'' acc w2 = Inr w3"
      using ex assms w2 by (cases "store_if_truthy p ''cognito_access_token'' acc w2") auto
    have "b = (js_truthy idt \<or> js_truthy acc)" and "localStorage w' = localStorage w3"
      using ex assms w2 w3 by auto
    with f idt acc l1 w2 w3 show ?thesis by blast
  qed
qed

lemma store_authenticated:
  assumes "store_if_truthy p k v w = Inr w'"
    and "k = ''cognito_id_token'' \<or> k = ''cognito_access_token''"
    and "\<forall>x. v = Some x \<and> truthy x \<longrightarrow>
          (\<exists>s. to_string (number_toString p) x = Inr s \<and> s \<noteq> [])"
  shows "isAuthenticated w' \<longleftrightarrow> js_truthy v \<or> isAuthenticated w"
proof (cases "js_truthy v")
  case False
  then have "localStorage w' = localStorage w"
    using store_if_truthy_stored(3) [OF assms(1)] by simp
  with False show ?thesis by (simp add: isAuthenticated_def)
next
  case True
  then obtain x where x: "v = Some x" "truthy x"
    by (cases v) (auto simp: js_truthy_def)
  then obtain s where s: "to_string (number_toString p) x = Inr s" "s \<noteq> []"
    using assms(3) by blast
  have "localStorage w' = (localStorage w)(k \<mapsto> s)"
    using store_if_truthy_stored(2) [OF assms(1)] x s by auto
  with True s(2) assms(2) show ?thesis
    by (auto simp: isAuthenticated_def getItem_def str_truthy_def)
qed

lemma storable_value:
  assumes "storable_tokens p" and "fetch p req = Response ok (Inr payload)"
    and "k = ''id_token'' \<or> k = ''access_token''" and "get_prop payload k = Inr v"
  shows "\<forall>x. v = Some x \<and> truthy x \<longrightarrow>
          (\<exists>s. to_string (number_toString p) x = Inr s \<and> s \<noteq> [])"
  using assms unfolding storable_tokens_def by blast

lemma settle_consistent:
  assumes st: "storable_tokens p" and inv: "authed st = isAuthenticated w"
  shows "authed (fst (exchange_and_settle p config code st w))
    = isAuthenticated (snd (exchange_and_settle p config code st w))"
proof (cases "exchangeCodeForTokens p config code w")
  case (Pair r w1)
  show ?thesis
  proof (cases r)
    case (Inl e)
    have "exchangeCodeForTokens p config code w = (Inl e, w1)"
      using Pair Inl by simp
    from exchange_rejects [OF this]
    have "localStorage w1 = localStorage w
        \<or> (\<exists>verifier payload acc.
              fetch p (token_request config code verifier) = Response True (Inr payload)
              \<and> get_prop payload ''access_token'' = Inr (Some acc) \<and> truthy acc
              \<and> to_string (number_toString p) acc = Inl e)"
      by blast
    moreover have "\<not> (\<exists>verifier payload acc.
              fetch p (token_request config code verifier) = Response True (Inr payload)
              \<and> get_prop payload ''access_token'' = Inr (Some acc) \<and> truthy acc
              \<and> to_string (number_toString p) acc = Inl e)"
    proof
      assume "\<exists>verifier payload acc.
              fetch p (token_request config code verifier) = Response True (Inr payload)
              \<and> get_prop payload ''access_token'' = Inr (Some acc) \<and> truthy acc
              \<and> to_string (number_toString p) acc = Inl e"
      then obtain verifier payload acc where
        f: "fetch p (token_request config code verifier) = Response True (Inr payload)"
        and a: "get_prop payload ''access_token'' = Inr (Some acc)" "truthy acc"
          "to_string (number_toString p) acc = Inl e"
        by blast
      from storable_value [OF st f _ a(1)] a(2) a(3) show False by auto
    qed
    ultimately have "localStorage w1 = localStorage w" by blast
    then have "isAuthenticated (replaceState w1) = isAuthenticated w"
      by (simp add: isAuthenticated_def replaceState_def)
    then show ?thesis
      by (simp add: exchange_and_settle_def Pair Inl inv)
  next
    case (Inr b)
    have "exchangeCodeForTokens p config code w = (Inr b, w1)"
      using Pair Inr by simp
    from exchange_fulfils [OF this]
    obtain verifier payload idt acc v1 v2 v3 where
      f: "fetch p (token_request config code verifier) = Response True (Inr payload)"
      and i: "get_prop payload ''id_token'' = Inr idt"
      and a: "get_prop payload ''access_token'' = Inr acc"
      and l1: "localStorage v1 = localStorage w"
      and s2: "store_if_truthy p ''cognito_id_token'' idt v1 = Inr v2"
      and s3: "store_if_truthy p ''cognito_access_token'' acc v2 = Inr v3"
      and b: "b = (js_truthy idt \<or> js_truthy acc)"
      and l: "localStorage w1 = localStorage v3"
      by blast
    have "isAuthenticated v2 \<longleftrightarrow> js_truthy idt \<or> isAuthenticated v1"
      by (rule store_authenticated [OF s2 _ storable_value [OF st f _ i]]) simp_all
    moreover have "isAuthenticated v3 \<longleftrightarrow> js_truthy acc \<or> isAuthenticated v2"
      by (rule store_authenticated [OF s3 _ storable_value [OF st f _ a]]) simp_all
    moreover have "isAuthenticated v1 = isAuthenticated w"
      using l1 by (rule isAuthenticated_local)
    moreover have "isAuthenticated (replaceState w1) = isAuthenticated v3"
      using l by (simp add: isAuthenticated_def replaceState_def)
    ultimately have r: "isAuthenticated (replaceState w1) \<longleftrightarrow> b \<or> isAuthenticated w"
      using b by blast
    show ?thesis
    proof (cases b)
      case True
      then show ?thesis
        by (simp add: exchange_and_settle_def Pair Inr label_effect_def r)
    next
      case False
      then show ?thesis
        by (simp add: exchange_and_settle_def Pair Inr r inv)
    qed
  qed
qed

lemma mount_consistent:
  assumes "storable_tokens p"
  shows "authed (fst (App_mount p config w)) = isAuthenticated (snd (App_mount p config w))"
proof -
  define st1 where "st1 = label_effect p w
      \<lparr> authed = isAuthenticated w, authError = [], userLabel = getUserLabel p w \<rparr>"
  have inv: "authed st1 = isAuthenticated w"
    by (simp add: st1_def label_effect_def)
  have run: "App_mount p config w = code_effect p config st1 w"
    by (simp add: App_mount_def st1_def Let_def)
  show ?thesis
  proof (cases "str_truthy (params_get (search w) ''error'')")
    case True
    then show ?thesis by (simp add: run code_effect_def Let_def inv)
  next
    case False
    show ?thesis
    proof (cases "str_truthy (params_get (search w) ''code'')")
      case True
      with False have "code_effect p config st1 w = exchange_and_settle p config
          (nullish (params_get (search w) ''code'') []) st1 w"
        by (simp add: code_effect_def Let_def)
      then show ?thesis
        using settle_consistent [OF assms inv] by (simp add: run)
    next
      case nocode: False
      with False show ?thesis by (simp add: run code_effect_def Let_def inv)
    qed
  qed
qed

lemma logout_consistent:
  "authed (fst (logout_click p config st w)) = isAuthenticated (snd (logout_click p config st w))"
  by (simp add: logout_click_def Let_def label_effect_def isAuthenticated_def removeItem_def
      getItem_def str_truthy_def)

lemma login_consistent:
  "authed (fst (login_click p config st w)) = authed st
   \<and> isAuthenticated (snd (login_click p config st w)) = isAuthenticated w"
  by (simp add: login_click_def buildLoginUrl_def Let_def isAuthenticated_def)

lemma reachable_consistent:
  assumes "\<forall>p. P p \<longrightarrow> storable_tokens p" and "reachable P config s"
  shows "authed (fst s) = isAuthenticated (snd s)"
  using assms(2)
proof (induction rule: reachable.induct)
  case (mount p w)
  then have "storable_tokens p" using assms(1) by blast
  then show ?case by (rule mount_consistent)
next
  case (logout st w p)
  show ?case
    by (rule logout_consistent)
next
  case (login st w p)
  then have "authed st = isAuthenticated w" by simp
  then show ?case
    using login_consistent [of p config st w] by simp
qed

text \<open>
  Claim C5, as stated, fails at a page load. A page load whose exchange is answered
  \<open>{"id_token": []}\<close> stores the empty string and is authenticated, while
  \<open>isAuthenticated()\<close> is false. A page load whose exchange is answered
  \<open>{"id_token": "a.b.c", "access_token": {"toString": 1}}\<close> stores the ID token, rejects
  at the access token and is not authenticated, while \<open>isAuthenticated()\<close> is true.
\<close>

theorem authed_matches_storage_counterexample:
  "authed (fst (App_mount array_platform example_config pending_world))
   \<and> \<not> isAuthenticated (snd (App_mount array_platform example_config pending_world))
   \<and> \<not> authed (fst (App_mount unstorable_platform example_config pending_world))
   \<and> isAuthenticated (snd (App_mount unstorable_platform example_config pending_world))"
proof -
  have s: "search pending_world = [(''code'', ''abc'')]"
    and n: "localStorage pending_world = Map.empty"
    by (simp_all add: pending_world_def example_world_def)
  have e1: "exchangeCodeForTokens array_platform example_config ''abc'' pending_world
     = (Inr True, pending_world\<lparr>fetched := [token_request example_config ''abc'' ''v3r1f13r''],
          localStorage := [''cognito_id_token'' \<mapsto> []], sessionStorage := Map.empty\<rparr>)"
    by (simp add: exchangeCodeForTokens_def pending_world_def example_world_def getItem_def
        CODE_VERIFIER_KEY_def array_platform_def token_platform_def Let_def store_if_truthy_def
        setItem_def removeItem_def js_truthy_def)
  have e2: "exchangeCodeForTokens unstorable_platform example_config ''abc'' pending_world
     = (Inl (TypeError ''Cannot convert object to primitive value''),
        pending_world\<lparr>fetched := [token_request example_config ''abc'' ''v3r1f13r''],
          localStorage := [''cognito_id_token'' \<mapsto> ''a.b.c'']\<rparr>)"
    by (simp add: exchangeCodeForTokens_def pending_world_def example_world_def getItem_def
        CODE_VERIFIER_KEY_def unstorable_platform_def token_platform_def Let_def
        store_if_truthy_def setItem_def)
  have m1: "authed (fst (App_mount array_platform example_config pending_world))
      \<and> \<not> isAuthenticated (snd (App_mount array_platform example_config pending_world))"
    by (simp add: App_mount_def Let_def code_effect_def exchange_and_settle_def e1 s
        params_get_def str_truthy_def nullish_def label_effect_def replaceState_def
        isAuthenticated_def getItem_def)
  have m2: "\<not> authed (fst (App_mount unstorable_platform example_config pending_world))
      \<and> isAuthenticated (snd (App_mount unstorable_platform example_config pending_world))"
    by (simp add: App_mount_def Let_def code_effect_def exchange_and_settle_def e2 s n
        params_get_def str_truthy_def nullish_def label_effect_def replaceState_def
        isAuthenticated_def getItem_def)
  show ?thesis using m1 m2 by simp
qed

text \<open>
  Claim C5, amended. \<open>isAuthenticated()\<close> is true exactly when \<open>cognito_id_token\<close> or
  \<open>cognito_access_token\<close> holds a non-empty value in durable storage; and in every
  state reachable by a page load (with the exchange it may run) followed by clicks on the
  login or logout button, with a token endpoint whose present tokens convert to
  non-empty strings (as every non-empty string token does), the \<open>authed\<close> state of the
  component equals that check on the storage.
\<close>

theorem authed_matches_storage:
  assumes "\<forall>p. P p \<longrightarrow> storable_tokens p" and "reachable P config (st, w)"
  shows "(isAuthenticated w \<longleftrightarrow>
            (\<exists>v. localStorage w ''cognito_id_token'' = Some v \<and> v \<noteq> [])
            \<or> (\<exists>v. localStorage w ''cognito_access_token'' = Some v \<and> v \<noteq> []))
    \<and> authed st = isAuthenticated w"
  using reachable_consistent [OF assms] isAuthenticated_iff [of w] by simp

theorem authed_matches_storage_witness:
  "authed (fst (App_mount token_platform example_config pending_world))
   \<and> isAuthenticated (snd (App_mount token_platform example_config pending_world))
   \<and> \<not> authed (fst (logout_click token_platform example_config
          (fst (App_mount token_platform example_config pending_world))
          (snd (App_mount token_platform example_config pending_world))))
   \<and> \<not> isAuthenticated (snd (logout_click token_platform example_config
          (fst (App_mount token_platform example_config pending_world))
          (snd (App_mount token_platform example_config pending_world))))"
proof -
  define P where "P = (\<lambda>p. p = token_platform)"
  have h1: "\<forall>p. P p \<longrightarrow> storable_tokens p"
    by (auto simp: P_def storable_tokens_def token_platform_def split: if_splits)
  have ex: "exchangeCodeForTokens token_platform example_config ''abc'' pending_world
     = (Inr True, pending_world\<lparr>fetched := [token_request example_config ''abc'' ''v3r1f13r''],
          localStorage := [''cognito_id_token'' \<mapsto> ''a.b.c''], sessionStorage := Map.empty\<rparr>)"
    by (simp add: exchangeCodeForTokens_def pending_world_def example_world_def getItem_def
        CODE_VERIFIER_KEY_def token_platform_def Let_def store_if_truthy_def setItem_def
        removeItem_def js_truthy_def)
  have s: "search pending_world = [(''code'', ''abc'')]"
    by (simp add: pending_world_def example_world_def)
  have a: "authed (fst (App_mount token_platform example_config pending_world))"
    by (simp add: App_mount_def Let_def code_effect_def exchange_and_settle_def ex s
        params_get_def str_truthy_def nullish_def label_effect_def)
  have r1: "reachable P example_config
      (fst (App_mount token_platform example_config pending_world),
       snd (App_mount token_platform example_config pending_world))"
    using reachable.mount [of P token_platform example_config pending_world]
    by (simp add: P_def)
  have r2: "reachable P example_config
      (fst (logout_click token_platform example_config
          (fst (App_mount token_platform example_config pending_world))
          (snd (App_mount token_platform example_config pending_world))),
       snd (logout_click token_platform example_config
          (fst (App_mount token_platform example_config pending_world))
          (snd (App_mount token_platform example_config pending_world))))"
    using reachable.logout [OF r1 _ a, of token_platform] by (simp add: P_def)
  have l: "\<not> authed (fst (logout_click token_platform example_config
          (fst (App_mount token_platform example_config pending_world))
          (snd (App_mount token_platform example_config pending_world))))"
    by (simp add: logout_click_def Let_def label_effect_def)
  show ?thesis
    using authed_matches_storage [OF h1 r1, THEN conjunct2]
      authed_matches_storage [OF h1 r2, THEN conjunct2] a l
    by simp
qed

section \<open>Submitting the upload form\<close>

text \<open>
  Claim C7. When no file is selected or a submission is in flight, \<open>handleSubmit\<close>
  does nothing: the form state (error, result, submitting flag and the rest) and the
  browser state, with the list of requests issued, are unchanged.
\<close>

theorem handleSubmit_noop:
  assumes "selectedFile st = None \<or> isSubmitting st"
  shows "handleSubmit p st w = (st, w)"
  using assms by (auto simp: handleSubmit_def split: option.splits)

theorem handleSubmit_noop_witness:
  "selectedFile idle_form = None
   \<and> handleSubmit failing_platform idle_form example_world = (idle_form, example_world)
   \<and> isSubmitting (idle_form\<lparr>selectedFile := Some clip, isSubmitting := True\<rparr>)
   \<and> handleSubmit failing_platform (idle_form\<lparr>selectedFile := Some clip, isSubmitting := True\<rparr>)
        example_world = (idle_form\<lparr>selectedFile := Some clip, isSubmitting := True\<rparr>, example_world)"
proof -
  have h1: "selectedFile idle_form = None \<or> isSubmitting idle_form"
    by (simp add: idle_form_def)
  have h2: "selectedFile (idle_form\<lparr>selectedFile := Some clip, isSubmitting := True\<rparr>) = None
      \<or> isSubmitting (idle_form\<lparr>selectedFile := Some clip, isSubmitting := True\<rparr>)"
    by simp
  show ?thesis
    using handleSubmit_noop [OF h1, of failing_platform example_world]
      handleSubmit_noop [OF h2, of failing_platform example_world]
    by (simp add: idle_form_def)
qed

text \<open>
  Claim C8. When a submission gets a non-2xx answer: with a JSON object body whose
  \<open>detail\<close> is "file too large", the error shown is exactly that; with a body that is
  not JSON, or a JSON object without \<open>detail\<close>, it is "Transcription failed". One
  request was issued.
\<close>

theorem transcription_error_message:
  assumes "selectedFile st = Some f" and "\<not> isSubmitting st"
    and "fetch p (transcribe_request (language st) f) = Response False body"
  shows "(\<forall>kvs. body = Inr (JObj kvs) \<and> map_of kvs ''detail'' = Some (JStr ''file too large'') \<longrightarrow>
            error (fst (handleSubmit p st w)) = JStr ''file too large'')
    \<and> ((\<exists>e. body = Inl e) \<longrightarrow> error (fst (handleSubmit p st w)) = JStr ''Transcription failed'')
    \<and> (\<forall>kvs. body = Inr (JObj kvs) \<and> map_of kvs ''detail'' = None \<longrightarrow>
            error (fst (handleSubmit p st w)) = JStr ''Transcription failed'')
    \<and> fetched (snd (handleSubmit p st w)) = fetched w @ [transcribe_request (language st) f]"
  using assms by (auto simp: handleSubmit_def Let_def)

theorem transcription_error_message_witness:
  "error (fst (handleSubmit failing_platform ready_form example_world)) = JStr ''file too large''
   \<and> error (fst (handleSubmit unparsable_platform ready_form example_world))
       = JStr ''Transcription failed''
   \<and> fetched (snd (handleSubmit failing_platform ready_form example_world))
       = [transcribe_request ''en'' clip]"
proof -
  have h1: "selectedFile ready_form = Some clip"
    and h2: "\<not> isSubmitting ready_form"
    and lang: "language ready_form = ''en''"
    by (simp_all add: ready_form_def idle_form_def)
  have h3: "fetch failing_platform (transcribe_request (language ready_form) clip)
      = Response False (Inr (JObj [(''detail'', JStr ''file too large'')]))"
    by (simp add: failing_platform_def)
  have h4: "fetch unparsable_platform (transcribe_request (language ready_form) clip)
      = Response False (Inl (SyntaxError ''Unexpected token <''))"
    by (simp add: unparsable_platform_def)
  show ?thesis
    using transcription_error_message [OF h1 h2 h3, of example_world]
      transcription_error_message [OF h1 h2 h4, of example_world]
    by (simp add: lang example_world_def)
qed

end
